theory Spec2Isabelle
  imports Complex_Main "HOL-Library.Multiset"
begin

section \<open>Data model\<close>

text \<open>
  Text is a list of Unicode code points, so that \<open>length\<close> is Python's \<open>len\<close> and the
  CJK tokens of the subject filter can be written down. A cell that pandas reads as
  missing (NaN) is \<open>None\<close>.
\<close>

type_synonym ustr = "nat list"

text \<open>
  A float64 value. Finite values are kept as exact reals: rounding and the sign of zero
  are not modelled. The three special values are kept, because the code treats them
  explicitly (\<open>replace([inf, -inf], 0)\<close>, \<open>fillna(0)\<close>), and a quotient that leaves the
  float64 range becomes an infinity (\<open>overflow\<close> below).
\<close>

datatype pyfloat = Fin real | PInf | NInf | NaN

text \<open>One row of the table after \<open>df.iloc[1:]\<close>, with the columns the pipeline reads.\<close>

record raw_record =
  district :: "ustr option"
  subject :: ustr
  transaction_date :: "ustr option"
  completion_date :: "ustr option"
  total_price :: "ustr option"
  unit_price_per_area :: "ustr option"
  building_area :: "ustr option"
  land_area :: "ustr option"

text \<open>A row with the derived columns added.\<close>

record clean_record =
  raw :: raw_record
  total_price_major :: pyfloat
  area_units :: pyfloat
  unit_price :: pyfloat
  transaction_year :: int
  building_age :: int

section \<open>Library functions taken as parameters\<close>

text \<open>
  Two parsers belong to Python and pandas, not to the repository, and are parameters of
  the model:
  \<^item> \<open>pint\<close> is Python's \<open>int(s)\<close> on a string, \<open>None\<close> when it raises;
  \<^item> \<open>num\<close> is \<open>pd.to_numeric(errors='coerce')\<close> on one cell, \<open>NaN\<close> when the cell is
    missing or does not parse.
  The two instances below read plain ASCII decimal integers, with an optional minus sign
  for \<open>dec_numeric\<close>; on such strings they agree with the library functions. They are used
  to evaluate the pipeline on concrete rows.
\<close>

definition digit_val :: "nat \<Rightarrow> nat option" where
  "digit_val c = (if 48 \<le> c \<and> c \<le> 57 then Some (c - 48) else None)"

fun digits_val :: "nat \<Rightarrow> ustr \<Rightarrow> nat option" where
  "digits_val acc [] = Some acc"
| "digits_val acc (c # cs) =
     (case digit_val c of None \<Rightarrow> None | Some d \<Rightarrow> digits_val (10 * acc + d) cs)"

definition ascii_int :: "ustr \<Rightarrow> int option" where
  "ascii_int s = (if s = [] then None else map_option int (digits_val 0 s))"

definition dec_numeric :: "ustr option \<Rightarrow> pyfloat" where
  "dec_numeric cell =
     (case cell of
        None \<Rightarrow> NaN
      | Some s \<Rightarrow>
          (case s of
             [] \<Rightarrow> NaN
           | c # cs \<Rightarrow>
               if c = 45 then
                 (case ascii_int cs of None \<Rightarrow> NaN | Some n \<Rightarrow> Fin (- real_of_int n))
               else
                 (case ascii_int s of None \<Rightarrow> NaN | Some n \<Rightarrow> Fin (real_of_int n))))"

definition ustr_of :: "string \<Rightarrow> ustr" where
  "ustr_of s = map of_char s"

section \<open>Calendar Normalizer\<close>

text \<open>
  \<^verbatim>\<open>
  def parse_roc_year(x):
      try:
          if pd.notna(x) and len(x) >= 6:
              return int(x[:-4]) + 1911
          return None
      except:
          return None
  \<close>
  \<open>x[:-4]\<close> is the string without its last four characters (empty when there are fewer).
\<close>

definition drop_last4 :: "ustr \<Rightarrow> ustr" where
  "drop_last4 s = take (length s - 4) s"

definition parse_roc_year :: "(ustr \<Rightarrow> int option) \<Rightarrow> ustr option \<Rightarrow> int option" where
  "parse_roc_year pint x =
     (case x of
        None \<Rightarrow> None
      | Some s \<Rightarrow>
          if length s \<ge> 6 then
            (case pint (drop_last4 s) of None \<Rightarrow> None | Some y \<Rightarrow> Some (y + 1911))
          else None)"

section \<open>Float operations\<close>

text \<open>
  Element-wise float64 arithmetic of numpy, which never raises: a division by zero gives
  an infinity or NaN. Zero is taken as positive zero.

  The largest float64 is \<open>2 ^ 1024 - 2 ^ 971\<close>; under round-to-nearest an exact result of
  magnitude \<open>2 ^ 1024 - 2 ^ 970\<close> or more becomes an infinity. The quotient of two finite
  values goes through \<open>overflow\<close>. The products of the pipeline have the factor 0.3025 and
  cannot leave the range, so \<open>fmul\<close> keeps them exact.
\<close>

definition float_overflow_bound :: real where
  "float_overflow_bound = 2 ^ 1024 - 2 ^ 970"

definition overflow :: "real \<Rightarrow> pyfloat" where
  "overflow x =
     (if float_overflow_bound \<le> x then PInf
      else if x \<le> - float_overflow_bound then NInf
      else Fin x)"

fun fdiv :: "pyfloat \<Rightarrow> pyfloat \<Rightarrow> pyfloat" where
  "fdiv NaN _ = NaN"
| "fdiv _ NaN = NaN"
| "fdiv (Fin a) (Fin b) =
     (if b = 0 then (if a = 0 then NaN else if a > 0 then PInf else NInf)
      else overflow (a / b))"
| "fdiv (Fin a) PInf = Fin 0"
| "fdiv (Fin a) NInf = Fin 0"
| "fdiv PInf (Fin b) = (if b \<ge> 0 then PInf else NInf)"
| "fdiv NInf (Fin b) = (if b \<ge> 0 then NInf else PInf)"
| "fdiv PInf PInf = NaN"
| "fdiv PInf NInf = NaN"
| "fdiv NInf PInf = NaN"
| "fdiv NInf NInf = NaN"

fun fmul :: "pyfloat \<Rightarrow> pyfloat \<Rightarrow> pyfloat" where
  "fmul NaN _ = NaN"
| "fmul _ NaN = NaN"
| "fmul (Fin a) (Fin b) = Fin (a * b)"
| "fmul (Fin a) PInf = (if a = 0 then NaN else if a > 0 then PInf else NInf)"
| "fmul (Fin a) NInf = (if a = 0 then NaN else if a > 0 then NInf else PInf)"
| "fmul PInf (Fin b) = (if b = 0 then NaN else if b > 0 then PInf else NInf)"
| "fmul NInf (Fin b) = (if b = 0 then NaN else if b > 0 then NInf else PInf)"
| "fmul PInf PInf = PInf"
| "fmul PInf NInf = NInf"
| "fmul NInf PInf = NInf"
| "fmul NInf NInf = PInf"

fun fgt :: "pyfloat \<Rightarrow> real \<Rightarrow> bool" where
  "fgt (Fin a) c = (a > c)"
| "fgt PInf c = True"
| "fgt NInf c = False"
| "fgt NaN c = False"

fun flt :: "pyfloat \<Rightarrow> real \<Rightarrow> bool" where
  "flt (Fin a) c = (a < c)"
| "flt PInf c = False"
| "flt NInf c = True"
| "flt NaN c = False"

fun feq :: "pyfloat \<Rightarrow> real \<Rightarrow> bool" where
  "feq (Fin a) c = (a = c)"
| "feq PInf c = False"
| "feq NInf c = False"
| "feq NaN c = False"

text \<open>\<open>.fillna(0)\<close> and \<open>.replace([np.inf, -np.inf], 0)\<close> on one value.\<close>

fun fillna0 :: "pyfloat \<Rightarrow> pyfloat" where
  "fillna0 NaN = Fin 0"
| "fillna0 x = x"

fun replace_inf0 :: "pyfloat \<Rightarrow> pyfloat" where
  "replace_inf0 PInf = Fin 0"
| "replace_inf0 NInf = Fin 0"
| "replace_inf0 x = x"

section \<open>Record Filter\<close>

text \<open>
  \<open>s.str.contains(pat)\<close> for a pattern without regular-expression metacharacters: \<open>pat\<close>
  occurs in \<open>s\<close> as a contiguous substring.
\<close>

fun contains :: "ustr \<Rightarrow> ustr \<Rightarrow> bool" where
  "contains [] pat = (pat = [])"
| "contains (c # cs) pat = (take (length pat) (c # cs) = pat \<or> contains cs pat)"

text \<open>The tokens: U+623F U+5730, U+571F U+5730, U+5EFA U+7269.\<close>

definition tok_building_and_land :: ustr where
  "tok_building_and_land = [25151, 22320]"

definition tok_land :: ustr where
  "tok_land = [22303, 22320]"

definition tok_building :: ustr where
  "tok_building = [24314, 29289]"

text \<open>
  \<^verbatim>\<open>
  if district_list:
      df = df[df['district'].isin(district_list)]
  if type_filter == building_and_land:
      df = df[label.str.contains(building_and_land) | label.str.contains(building)]
  elif type_filter == land:
      df = df[label.str.contains(land) & ~label.str.contains(building_and_land)]
  \<close>
  The subject label is modelled as present text; rows with a missing label are outside
  the model.
\<close>

definition district_keep :: "ustr list \<Rightarrow> raw_record \<Rightarrow> bool" where
  "district_keep district_list r =
     (if district_list \<noteq> [] then
        (case district r of None \<Rightarrow> False | Some d \<Rightarrow> d \<in> set district_list)
      else True)"

definition keep_building_land :: "ustr \<Rightarrow> bool" where
  "keep_building_land label = (contains label tok_building_and_land \<or> contains label tok_building)"

definition keep_land_only :: "ustr \<Rightarrow> bool" where
  "keep_land_only label = (contains label tok_land \<and> \<not> contains label tok_building_and_land)"

definition subject_keep :: "ustr \<Rightarrow> raw_record \<Rightarrow> bool" where
  "subject_keep type_filter r =
     (if type_filter = tok_building_and_land then keep_building_land (subject r)
      else if type_filter = tok_land then keep_land_only (subject r)
      else True)"

section \<open>Derived-Field Calculator\<close>

text \<open>
  \<^verbatim>\<open>
  for c in cols:
      df[c] = pd.to_numeric(df[c], errors='coerce').fillna(0)
  df[total_major] = df[total] / 10000
  df[area] = df[building_area] * 0.3025
  mask_land = df[area] == 0
  df.loc[mask_land, area] = df.loc[mask_land, land_area] * 0.3025
  df[unit] = df[total_major] / df[area]
  df[unit] = df[unit].replace([np.inf, -np.inf], 0).fillna(0)
  \<close>
\<close>

definition coerce :: "(ustr option \<Rightarrow> pyfloat) \<Rightarrow> ustr option \<Rightarrow> pyfloat" where
  "coerce num cell = fillna0 (num cell)"

definition calc_total_major :: "(ustr option \<Rightarrow> pyfloat) \<Rightarrow> raw_record \<Rightarrow> pyfloat" where
  "calc_total_major num r = fdiv (coerce num (total_price r)) (Fin 10000)"

definition building_units :: "(ustr option \<Rightarrow> pyfloat) \<Rightarrow> raw_record \<Rightarrow> pyfloat" where
  "building_units num r = fmul (coerce num (building_area r)) (Fin (3025 / 10000))"

definition land_units :: "(ustr option \<Rightarrow> pyfloat) \<Rightarrow> raw_record \<Rightarrow> pyfloat" where
  "land_units num r = fmul (coerce num (land_area r)) (Fin (3025 / 10000))"

definition calc_area_units :: "(ustr option \<Rightarrow> pyfloat) \<Rightarrow> raw_record \<Rightarrow> pyfloat" where
  "calc_area_units num r =
     (let mask_land = feq (building_units num r) 0
      in if mask_land then land_units num r else building_units num r)"

definition calc_unit_price :: "(ustr option \<Rightarrow> pyfloat) \<Rightarrow> raw_record \<Rightarrow> pyfloat" where
  "calc_unit_price num r =
     fillna0 (replace_inf0 (fdiv (calc_total_major num r) (calc_area_units num r)))"

text \<open>
  \<^verbatim>\<open>
  def calc_age(row):
      try:
          build_date = row[completion]
          if pd.isna(build_date) or len(str(build_date)) < 3:
              return 0
          build_year = int(str(build_date)[:-4]) + 1911
          age = row[transaction_year] - build_year
          return max(age, 0)
      except:
          return 0
  \<close>
\<close>

definition calc_age :: "(ustr \<Rightarrow> int option) \<Rightarrow> ustr option \<Rightarrow> int \<Rightarrow> int" where
  "calc_age pint build_date year =
     (case build_date of
        None \<Rightarrow> 0
      | Some s \<Rightarrow>
          if length s < 3 then 0
          else (case pint (drop_last4 s) of
                  None \<Rightarrow> 0
                | Some y \<Rightarrow> max (year - (y + 1911)) 0))"

section \<open>The pipeline\<close>

text \<open>
  \<open>derive\<close> is one row through steps 3 to 5 of \<open>process_data\<close>: \<open>None\<close> when
  \<open>dropna(subset=[transaction_year])\<close> removes the row. \<open>derived_records\<close> is the table
  before step 6, \<open>process_data\<close> the table after it. Reading the archive is outside the
  model: \<open>rows\<close> is the table after \<open>df.iloc[1:]\<close>.
\<close>

definition derive ::
  "(ustr \<Rightarrow> int option) \<Rightarrow> (ustr option \<Rightarrow> pyfloat) \<Rightarrow> raw_record \<Rightarrow> clean_record option" where
  "derive pint num r =
     (case parse_roc_year pint (transaction_date r) of
        None \<Rightarrow> None
      | Some y \<Rightarrow>
          Some \<lparr> raw = r,
                 total_price_major = calc_total_major num r,
                 area_units = calc_area_units num r,
                 unit_price = calc_unit_price num r,
                 transaction_year = y,
                 building_age = calc_age pint (completion_date r) y \<rparr>)"

definition derived_records ::
  "(ustr \<Rightarrow> int option) \<Rightarrow> (ustr option \<Rightarrow> pyfloat) \<Rightarrow> raw_record list \<Rightarrow> ustr list \<Rightarrow> ustr
     \<Rightarrow> clean_record list" where
  "derived_records pint num rows district_list type_filter =
     List.map_filter (derive pint num)
       (filter (subject_keep type_filter) (filter (district_keep district_list) rows))"

definition in_band :: "clean_record \<Rightarrow> bool" where
  "in_band c = (fgt (unit_price c) (1 / 10) \<and> flt (unit_price c) 300)"

definition process_data ::
  "(ustr \<Rightarrow> int option) \<Rightarrow> (ustr option \<Rightarrow> pyfloat) \<Rightarrow> raw_record list \<Rightarrow> ustr list \<Rightarrow> ustr
     \<Rightarrow> clean_record list" where
  "process_data pint num rows district_list type_filter =
     filter in_band (derived_records pint num rows district_list type_filter)"

section \<open>Interval Analyzer\<close>

text \<open>
  \<^verbatim>\<open>
  def analyze_best_range(df, col, step):
      if df.empty: return None, 0
      min_v = int(df[col].min())
      max_v = int(df[col].quantile(0.95))
      if max_v <= min_v: max_v = min_v + step
      bins = range(min_v, max_v + step, step)
      out = pd.cut(df[col], bins=bins, include_lowest=True)
      counts = out.value_counts().sort_values(ascending=False)
      if counts.empty: return None, 0
      return counts.index[0], counts.iloc[0]
  \<close>
  The column is a list of finite values, one per row. \<open>step\<close> is a natural number; the
  callers pass 5 and 100.
\<close>

datatype error = ValueError

text \<open>\<open>int(x)\<close> on a float truncates toward zero.\<close>

definition py_trunc :: "real \<Rightarrow> int" where
  "py_trunc x = (if x \<ge> 0 then \<lfloor>x\<rfloor> else \<lceil>x\<rceil>)"

text \<open>
  \<open>quantile(0.95)\<close> with pandas' default linear interpolation: position \<open>(n - 1) * 0.95\<close>
  in the sorted column, interpolated between its two neighbours.
\<close>

definition quantile95 :: "real list \<Rightarrow> real" where
  "quantile95 xs =
     (let s = sort xs;
          n = length s;
          pos = real (n - 1) * (95 / 100);
          i = nat \<lfloor>pos\<rfloor>;
          g = pos - real i
      in if i + 1 < n then s ! i + g * (s ! (i + 1) - s ! i) else s ! i)"

text \<open>\<open>range(a, b, s)\<close> for a positive step: \<open>a, a + s, ...\<close> below \<open>b\<close>.\<close>

definition py_range :: "int \<Rightarrow> int \<Rightarrow> int \<Rightarrow> int list" where
  "py_range a b s = map (\<lambda>k. a + int k * s) [0..<nat ((b - a + s - 1) div s)]"

definition lower_bound :: "real list \<Rightarrow> int" where
  "lower_bound xs = py_trunc (min_list xs)"

definition upper_bound :: "real list \<Rightarrow> nat \<Rightarrow> int" where
  "upper_bound xs step =
     (let min_v = lower_bound xs; max_v = py_trunc (quantile95 xs)
      in if max_v \<le> min_v then min_v + int step else max_v)"

definition bin_edges :: "real list \<Rightarrow> nat \<Rightarrow> int list" where
  "bin_edges xs step = py_range (lower_bound xs) (upper_bound xs step + int step) (int step)"

text \<open>
  \<open>pd.cut(x, bins, include_lowest=True)\<close> with the default \<open>right=True\<close>, as pandas computes
  it: \<open>ids = bins.searchsorted(x, side='left')\<close>, the number of edges strictly below \<open>x\<close>;
  \<open>ids[x == bins[0]] = 1\<close>; the value has no bin when \<open>ids\<close> is 0 or \<open>len(bins)\<close>; otherwise
  its bin is number \<open>ids - 1\<close>.
\<close>

definition cut_index :: "int list \<Rightarrow> real \<Rightarrow> nat option" where
  "cut_index edges x =
     (case edges of
        [] \<Rightarrow> None
      | e0 # _ \<Rightarrow>
          (let ids = (if x = real_of_int e0 then 1
                      else length (filter (\<lambda>e. real_of_int e < x) edges))
           in if ids = length edges \<or> ids = 0 then None else Some (ids - 1)))"

text \<open>
  The categories of the cut are the pairs of neighbouring edges, in order. pandas prints
  the left end of the first one lowered by \<open>0.001\<close>; the pair here keeps the edge itself.
  \<open>value_counts\<close> of a categorical column has one entry per category, also for an empty
  one, and leaves out the values without a bin.
\<close>

definition intervals :: "int list \<Rightarrow> (int \<times> int) list" where
  "intervals edges = zip edges (tl edges)"

definition bin_count :: "int list \<Rightarrow> real list \<Rightarrow> nat \<Rightarrow> nat" where
  "bin_count edges xs k = length (filter (\<lambda>x. cut_index edges x = Some k) xs)"

definition value_counts :: "int list \<Rightarrow> real list \<Rightarrow> ((int \<times> int) \<times> nat) list" where
  "value_counts edges xs =
     map (\<lambda>k. (intervals edges ! k, bin_count edges xs k)) [0..<length (intervals edges)]"

text \<open>
  The order of \<open>out.value_counts().sort_values(ascending=False)\<close> is by count, descending;
  among equal counts it is whatever numpy's default sort leaves, which the source does
  not fix. The sort is therefore the parameter \<open>srt\<close>. \<open>desc_sort\<close> is one such sort, the
  stable one.
\<close>

definition desc_sort :: "((int \<times> int) \<times> nat) list \<Rightarrow> ((int \<times> int) \<times> nat) list" where
  "desc_sort cs = sort_key (\<lambda>p. - int (snd p)) cs"

definition is_desc_sort :: "(((int \<times> int) \<times> nat) list \<Rightarrow> ((int \<times> int) \<times> nat) list) \<Rightarrow> bool" where
  "is_desc_sort srt =
     (\<forall>cs. mset (srt cs) = mset cs \<and> sorted_wrt (\<lambda>p q. snd q \<le> snd p) (srt cs))"

definition analyze_best_range ::
  "(((int \<times> int) \<times> nat) list \<Rightarrow> ((int \<times> int) \<times> nat) list) \<Rightarrow> real list \<Rightarrow> nat
     \<Rightarrow> error + ((int \<times> int) option \<times> nat)" where
  "analyze_best_range srt xs step =
     (if xs = [] then Inr (None, 0)
      else if step = 0 then Inl ValueError
      else
        (case srt (value_counts (bin_edges xs step) xs) of
           [] \<Rightarrow> Inr (None, 0)
         | (iv, n) # _ \<Rightarrow> Inr (Some iv, n)))"

text \<open>
  The bin a value belongs to, as an interval: open on the left and closed on the right,
  the first bin closed on the left as well.
\<close>

definition in_bin :: "int list \<Rightarrow> nat \<Rightarrow> real \<Rightarrow> bool" where
  "in_bin edges k x =
     (k + 1 < length edges \<and>
      ((real_of_int (edges ! k) < x \<and> x \<le> real_of_int (edges ! (k + 1))) \<or>
       (k = 0 \<and> x = real_of_int (edges ! 0))))"

section \<open>Example rows\<close>

text \<open>
  The filter value of the application's unfiltered call (U+5168 U+90E8) and the rows used
  to evaluate the pipeline. \<open>scenario_row\<close> is the scenario of the specification; the
  other rows change one or two of its cells. The \<open>_clean\<close> records are what the pipeline
  derives from them, as the lemmas below show. \<open>sci_numeric\<close> is \<open>dec_numeric\<close> extended by
  three cells that pandas reads as \<open>1e308\<close>, \<open>0.0001\<close> and infinity.
\<close>

definition tok_all :: ustr where
  "tok_all = [20840, 37096]"

definition scenario_row :: raw_record where
  "scenario_row =
     \<lparr> district = None, subject = [],
       transaction_date = Some (ustr_of ''1130615''),
       completion_date = Some (ustr_of ''1000101''),
       total_price = Some (ustr_of ''30000000''),
       unit_price_per_area = None,
       building_area = Some (ustr_of ''100''),
       land_area = None \<rparr>"

definition zero_price_row :: raw_record where
  "zero_price_row = scenario_row\<lparr>total_price := None\<rparr>"

definition scenario_clean :: clean_record where
  "scenario_clean =
     \<lparr> raw = scenario_row, total_price_major = Fin 3000, area_units = Fin (121 / 4),
       unit_price = Fin (12000 / 121), transaction_year = 2024, building_age = 13 \<rparr>"

definition zero_price_clean :: clean_record where
  "zero_price_clean =
     \<lparr> raw = zero_price_row, total_price_major = Fin 0, area_units = Fin (121 / 4),
       unit_price = Fin 0, transaction_year = 2024, building_age = 13 \<rparr>"

definition negative_price_row :: raw_record where
  "negative_price_row = scenario_row\<lparr>total_price := Some (ustr_of ''-10000'')\<rparr>"

definition short_completion_row :: raw_record where
  "short_completion_row = scenario_row\<lparr>completion_date := Some (ustr_of ''90101'')\<rparr>"

definition land_and_building_label :: ustr where
  "land_and_building_label = [22303, 22320, 24314, 29289]"

definition zero_area_row :: raw_record where
  "zero_area_row = scenario_row\<lparr>building_area := Some (ustr_of ''0'')\<rparr>"

definition zero_area_clean :: clean_record where
  "zero_area_clean =
     \<lparr> raw = zero_area_row, total_price_major = Fin 3000, area_units = Fin 0,
       unit_price = Fin 0, transaction_year = 2024, building_age = 13 \<rparr>"

definition sci_numeric :: "ustr option \<Rightarrow> pyfloat" where
  "sci_numeric cell =
     (if cell = Some (ustr_of ''1e308'') then Fin (10 ^ 308)
      else if cell = Some (ustr_of ''0.0001'') then Fin (1 / 10000)
      else if cell = Some (ustr_of ''inf'') then PInf
      else dec_numeric cell)"

definition overflow_row :: raw_record where
  "overflow_row =
     scenario_row\<lparr>total_price := Some (ustr_of ''1e308''),
       building_area := Some (ustr_of ''0.0001'')\<rparr>"

definition overflow_clean :: clean_record where
  "overflow_clean =
     \<lparr> raw = overflow_row, total_price_major = Fin (10 ^ 304),
       area_units = Fin (121 / 4000000), unit_price = Fin 0,
       transaction_year = 2024, building_age = 13 \<rparr>"

definition infinite_total_row :: raw_record where
  "infinite_total_row = scenario_row\<lparr>total_price := Some (ustr_of ''inf'')\<rparr>"

definition infinite_total_clean :: clean_record where
  "infinite_total_clean =
     \<lparr> raw = infinite_total_row, total_price_major = PInf,
       area_units = Fin (121 / 4), unit_price = Fin 0,
       transaction_year = 2024, building_age = 13 \<rparr>"

definition example_column :: "real list" where
  "example_column = [1, 6, 11, 23 / 2]"

definition double_negative_row :: raw_record where
  "double_negative_row =
     scenario_row\<lparr>total_price := Some (ustr_of ''-5000''),
       building_area := Some (ustr_of ''-1'')\<rparr>"

definition double_negative_clean :: clean_record where
  "double_negative_clean =
     \<lparr> raw = double_negative_row, total_price_major = Fin (- 1 / 2),
       area_units = Fin (- 121 / 400), unit_price = Fin (200 / 121),
       transaction_year = 2024, building_age = 13 \<rparr>"

section \<open>Properties of the pipeline\<close>

lemma fillna0_not_nan: "fillna0 x \<noteq> NaN"
  by (cases x) simp_all

lemma map_filter_mem: "y \<in> set (List.map_filter f xs) \<longleftrightarrow> (\<exists>x \<in> set xs. f x = Some y)"
  by (induction xs) (auto split: option.splits)

lemma derived_records_iff:
  "c \<in> set (derived_records pint num rows ds tf) \<longleftrightarrow>
     (\<exists>r \<in> set rows. district_keep ds r \<and> subject_keep tf r \<and> derive pint num r = Some c)"
  by (auto simp: derived_records_def map_filter_mem)

lemma derive_fields:
  "derive pint num r = Some c \<Longrightarrow>
     raw c = r \<and> total_price_major c = calc_total_major num r \<and>
     area_units c = calc_area_units num r \<and> unit_price c = calc_unit_price num r \<and>
     parse_roc_year pint (transaction_date r) = Some (transaction_year c) \<and>
     building_age c = calc_age pint (completion_date r) (transaction_year c)"
  by (auto simp: derive_def split: option.splits)

lemma in_band_iff: "in_band c \<longleftrightarrow> (\<exists>x. unit_price c = Fin x \<and> 1 / 10 < x \<and> x < 300)"
  by (cases "unit_price c") (simp_all add: in_band_def)

text \<open>
  C1. The clean record set is exactly the derived records whose unit price is a finite
  value strictly between 0.1 and 300. Every record of the clean set is in the band, and a
  derived record whose unit price is outside it (0 included) is not in the clean set.
\<close>

theorem outlier_band:
  "set (process_data pint num rows ds tf) =
     {c \<in> set (derived_records pint num rows ds tf). \<exists>x. unit_price c = Fin x \<and> 1 / 10 < x \<and> x < 300}
   \<and> (\<forall>c \<in> set (process_data pint num rows ds tf). \<exists>x. unit_price c = Fin x \<and> 1 / 10 < x \<and> x < 300)
   \<and> (\<forall>c \<in> set (derived_records pint num rows ds tf).
        (\<exists>x. unit_price c = Fin x \<and> (x \<le> 1 / 10 \<or> 300 \<le> x)) \<longrightarrow>
        c \<notin> set (process_data pint num rows ds tf))"
  by (auto simp: process_data_def in_band_iff)

text \<open>
  C2. For a date string of length at least 6 whose prefix (all but the last four
  characters) parses as the integer \<open>n\<close>, the Calendar Normalizer returns \<open>n + 1911\<close>. For
  a missing input, a string shorter than 6, or a prefix that does not parse, it returns no
  value; a row whose transaction date has no value is not in the clean set.
\<close>

theorem parse_roc_year_spec:
  "(6 \<le> length s \<and> pint (drop_last4 s) = Some n \<longrightarrow> parse_roc_year pint (Some s) = Some (n + 1911))
   \<and> parse_roc_year pint None = None
   \<and> (length s < 6 \<longrightarrow> parse_roc_year pint (Some s) = None)
   \<and> (pint (drop_last4 s) = None \<longrightarrow> parse_roc_year pint (Some s) = None)
   \<and> (parse_roc_year pint (transaction_date r) = None \<longrightarrow>
        (\<forall>c \<in> set (process_data pint num rows ds tf). raw c \<noteq> r))"
  by (auto simp: parse_roc_year_def process_data_def derived_records_iff dest!: derive_fields)

text \<open>
  C4. \<open>area_units\<close> is the building area times 0.3025 whenever that product is not zero,
  and the land area times 0.3025 exactly when the product is zero.
\<close>

theorem area_units_fallback:
  "(\<not> feq (fmul (coerce num (building_area r)) (Fin (3025 / 10000))) 0 \<longrightarrow>
      calc_area_units num r = fmul (coerce num (building_area r)) (Fin (3025 / 10000)))
   \<and> (feq (fmul (coerce num (building_area r)) (Fin (3025 / 10000))) 0 \<longrightarrow>
      calc_area_units num r = fmul (coerce num (land_area r)) (Fin (3025 / 10000)))
   \<and> (\<forall>c \<in> set (derived_records pint num rows ds tf). area_units c = calc_area_units num (raw c))"
  by (auto simp: calc_area_units_def building_units_def land_units_def derived_records_iff
      dest!: derive_fields)



lemmas eval_defs =
  derive_def parse_roc_year_def calc_age_def calc_unit_price_def calc_area_units_def
  calc_total_major_def building_units_def land_units_def coerce_def dec_numeric_def
  ascii_int_def digit_val_def ustr_of_def drop_last4_def overflow_def float_overflow_bound_def

lemma derive_scenario: "derive ascii_int dec_numeric scenario_row = Some scenario_clean"
  by (simp add: eval_defs scenario_row_def scenario_clean_def)

lemma derive_zero_price: "derive ascii_int dec_numeric zero_price_row = Some zero_price_clean"
  by (simp add: eval_defs scenario_row_def zero_price_row_def zero_price_clean_def)

lemma keep_all: "district_keep [] r" "subject_keep tok_all r"
  by (simp_all add: district_keep_def subject_keep_def tok_all_def tok_building_and_land_def
      tok_land_def)

lemma derived_two:
  "derived_records ascii_int dec_numeric [scenario_row, zero_price_row] [] tok_all =
     [scenario_clean, zero_price_clean]"
  by (simp add: derived_records_def keep_all List.map_filter_simps derive_scenario derive_zero_price)

lemma process_two:
  "process_data ascii_int dec_numeric [scenario_row, zero_price_row] [] tok_all = [scenario_clean]"
  by (simp add: process_data_def derived_two in_band_def scenario_clean_def zero_price_clean_def)

text \<open>
  Two rows, the second with a missing total price: its unit price is 0 and it is dropped.
\<close>

theorem outlier_band_witness:
  "scenario_clean \<in> set (process_data ascii_int dec_numeric [scenario_row, zero_price_row] [] tok_all)
   \<and> (\<exists>x. unit_price scenario_clean = Fin x \<and> 1 / 10 < x \<and> x < 300)
   \<and> zero_price_clean \<in> set (derived_records ascii_int dec_numeric [scenario_row, zero_price_row] [] tok_all)
   \<and> unit_price zero_price_clean = Fin 0
   \<and> zero_price_clean \<notin> set (process_data ascii_int dec_numeric [scenario_row, zero_price_row] [] tok_all)"
proof -
  note T = outlier_band [of ascii_int dec_numeric "[scenario_row, zero_price_row]" "[]" tok_all]
  have inA: "scenario_clean \<in> set (process_data ascii_int dec_numeric [scenario_row, zero_price_row] [] tok_all)"
    by (simp add: process_two)
  have inB: "zero_price_clean \<in> set (derived_records ascii_int dec_numeric [scenario_row, zero_price_row] [] tok_all)"
    by (simp add: derived_two)
  have up: "unit_price zero_price_clean = Fin 0"
    by (simp add: zero_price_clean_def)
  from T inA have 1: "\<exists>x. unit_price scenario_clean = Fin x \<and> 1 / 10 < x \<and> x < 300"
    by blast
  have "\<exists>x. unit_price zero_price_clean = Fin x \<and> (x \<le> 1 / 10 \<or> 300 \<le> x)"
    by (simp add: up)
  with T inB have 2: "zero_price_clean \<notin> set (process_data ascii_int dec_numeric [scenario_row, zero_price_row] [] tok_all)"
    by blast
  show ?thesis using inA inB up 1 2 by blast
qed

text \<open>The four cases at concrete strings.\<close>

theorem parse_roc_year_spec_witness:
  "parse_roc_year ascii_int (Some (ustr_of ''1130615'')) = Some (113 + 1911)
   \<and> parse_roc_year ascii_int (Some (ustr_of ''11306'')) = None
   \<and> parse_roc_year ascii_int (Some (ustr_of ''11x0615'')) = None
   \<and> scenario_row\<lparr>transaction_date := None\<rparr> \<notin>
       raw ` set (process_data ascii_int dec_numeric
          [scenario_row, scenario_row\<lparr>transaction_date := None\<rparr>] [] tok_all)"
proof -
  let ?bad = "scenario_row\<lparr>transaction_date := None\<rparr>"
  have h1: "6 \<le> length (ustr_of ''1130615'') \<and> ascii_int (drop_last4 (ustr_of ''1130615'')) = Some 113"
    by (simp add: ustr_of_def drop_last4_def ascii_int_def digit_val_def)
  have h2: "length (ustr_of ''11306'') < 6"
    by (simp add: ustr_of_def)
  have h3: "ascii_int (drop_last4 (ustr_of ''11x0615'')) = None"
    by (simp add: ustr_of_def drop_last4_def ascii_int_def digit_val_def)
  have h4: "parse_roc_year ascii_int (transaction_date ?bad) = None"
    by (simp add: parse_roc_year_def)
  from h1 parse_roc_year_spec [of "ustr_of ''1130615''" ascii_int 113]
  have 1: "parse_roc_year ascii_int (Some (ustr_of ''1130615'')) = Some (113 + 1911)"
    by blast
  from h2 parse_roc_year_spec [of "ustr_of ''11306''" ascii_int]
  have 2: "parse_roc_year ascii_int (Some (ustr_of ''11306'')) = None"
    by blast
  from h3 parse_roc_year_spec [of "ustr_of ''11x0615''" ascii_int]
  have 3: "parse_roc_year ascii_int (Some (ustr_of ''11x0615'')) = None"
    by blast
  from h4 parse_roc_year_spec [of "[]" ascii_int 0 ?bad dec_numeric "[scenario_row, ?bad]" "[]" tok_all]
  have "\<forall>c \<in> set (process_data ascii_int dec_numeric [scenario_row, ?bad] [] tok_all). raw c \<noteq> ?bad"
    by blast
  then have 4: "?bad \<notin> raw ` set (process_data ascii_int dec_numeric [scenario_row, ?bad] [] tok_all)"
    by (auto simp: image_iff)
  show ?thesis using 1 2 3 4 by blast
qed

text \<open>Building area 100 (no fallback) and building area 0 with land area 200 (fallback).\<close>

theorem area_units_fallback_witness:
  "calc_area_units dec_numeric scenario_row = Fin (121 / 4)
   \<and> calc_area_units dec_numeric
        (scenario_row\<lparr>building_area := Some (ustr_of ''0''), land_area := Some (ustr_of ''200'')\<rparr>)
      = Fin (121 / 2)
   \<and> area_units scenario_clean = calc_area_units dec_numeric (raw scenario_clean)"
proof -
  let ?r = "scenario_row\<lparr>building_area := Some (ustr_of ''0''), land_area := Some (ustr_of ''200'')\<rparr>"
  have b1: "fmul (coerce dec_numeric (building_area scenario_row)) (Fin (3025 / 10000)) = Fin (121 / 4)"
    by (simp add: scenario_row_def coerce_def dec_numeric_def ascii_int_def digit_val_def ustr_of_def)
  have b2: "fmul (coerce dec_numeric (building_area ?r)) (Fin (3025 / 10000)) = Fin 0"
    by (simp add: coerce_def dec_numeric_def ascii_int_def digit_val_def ustr_of_def)
  have l2: "fmul (coerce dec_numeric (land_area ?r)) (Fin (3025 / 10000)) = Fin (121 / 2)"
    by (simp add: coerce_def dec_numeric_def ascii_int_def digit_val_def ustr_of_def)
  have n1: "\<not> feq (fmul (coerce dec_numeric (building_area scenario_row)) (Fin (3025 / 10000))) 0"
    unfolding b1 by simp
  have z2: "feq (fmul (coerce dec_numeric (building_area ?r)) (Fin (3025 / 10000))) 0"
    unfolding b2 by simp
  have m: "scenario_clean \<in> set (derived_records ascii_int dec_numeric [scenario_row, zero_price_row] [] tok_all)"
    by (simp add: derived_two)
  from area_units_fallback [of dec_numeric scenario_row] n1
  have "calc_area_units dec_numeric scenario_row =
          fmul (coerce dec_numeric (building_area scenario_row)) (Fin (3025 / 10000))" by blast
  then have 1: "calc_area_units dec_numeric scenario_row = Fin (121 / 4)" unfolding b1 .
  from area_units_fallback [of dec_numeric ?r] z2
  have "calc_area_units dec_numeric ?r = fmul (coerce dec_numeric (land_area ?r)) (Fin (3025 / 10000))"
    by blast
  then have 2: "calc_area_units dec_numeric ?r = Fin (121 / 2)" unfolding l2 .
  from area_units_fallback [of dec_numeric scenario_row ascii_int "[scenario_row, zero_price_row]" "[]" tok_all] m
  have 3: "area_units scenario_clean = calc_area_units dec_numeric (raw scenario_clean)" by blast
  show ?thesis using 1 2 3 by blast
qed

lemma replace_fill_finite: "\<exists>x. fillna0 (replace_inf0 q) = Fin x"
  by (cases q) simp_all

lemma coerce_cases: "(\<exists>x. coerce num cell = Fin x) \<or> coerce num cell = PInf \<or> coerce num cell = NInf"
  by (cases "num cell") (simp_all add: coerce_def)

lemma coerce_not_nan: "coerce num cell \<noteq> NaN"
  by (simp add: coerce_def fillna0_not_nan)

lemma overflow_not_nan: "overflow x \<noteq> NaN"
  by (simp add: overflow_def)

lemma float_overflow_bound_pos: "0 < float_overflow_bound"
  by (simp add: float_overflow_bound_def)

lemma overflow_in_range: "\<bar>x\<bar> < float_overflow_bound \<Longrightarrow> overflow x = Fin x"
  by (auto simp: overflow_def)

lemma overflow_out_of_range:
  "float_overflow_bound \<le> \<bar>x\<bar> \<Longrightarrow> overflow x = PInf \<or> overflow x = NInf"
  by (auto simp: overflow_def)

lemma overflow_nonneg: "0 \<le> x \<Longrightarrow> overflow x = PInf \<or> overflow x = Fin x"
  using float_overflow_bound_pos by (auto simp: overflow_def)

lemma total_major_not_nan: "calc_total_major num r \<noteq> NaN"
  using coerce_not_nan [of num "total_price r"]
  by (cases "coerce num (total_price r)") (simp_all add: calc_total_major_def overflow_not_nan)

lemma area_units_not_nan: "calc_area_units num r \<noteq> NaN"
proof -
  have "fmul (coerce num cell) (Fin (3025 / 10000)) \<noteq> NaN" for cell
    using coerce_not_nan [of num cell] by (cases "coerce num cell") simp_all
  then show ?thesis
    by (simp add: calc_area_units_def building_units_def land_units_def)
qed

text \<open>
  C3, as stated, fails: a row with total price \<open>-10000\<close> and building area \<open>100\<close> has the
  unit price \<open>-1 / 30.25\<close>, which is negative.
\<close>

theorem unit_price_nonneg_counterexample:
  "map_option unit_price (derive ascii_int dec_numeric negative_price_row) = Some (Fin (- 4 / 121))
   \<and> flt (Fin (- 4 / 121)) 0"
  by (simp add: eval_defs negative_price_row_def scenario_row_def)

text \<open>
  C3, amended. For every record output by the Derived-Field Calculator the unit price is a
  finite value (no infinity, no NaN). It is the quotient of total price and area when
  both are finite, the area is not zero and the quotient is inside the float64 range. It
  is 0 in every other case: a zero or non-finite area, a non-finite total price, or a
  quotient that overflows. It is non-negative when neither total price nor area is
  negative.
\<close>

theorem unit_price_finite_spec:
  "(\<forall>c \<in> set (derived_records pint num rows ds tf).
      (\<exists>x. unit_price c = Fin x)
      \<and> (feq (area_units c) 0 \<or> area_units c = PInf \<or> area_units c = NInf \<longrightarrow> unit_price c = Fin 0)
      \<and> (total_price_major c = PInf \<or> total_price_major c = NInf \<longrightarrow> unit_price c = Fin 0)
      \<and> (\<forall>t a. total_price_major c = Fin t \<and> area_units c = Fin a \<and> a \<noteq> 0 \<and>
            \<bar>t / a\<bar> < float_overflow_bound \<longrightarrow> unit_price c = Fin (t / a))
      \<and> (\<forall>t a. total_price_major c = Fin t \<and> area_units c = Fin a \<and> a \<noteq> 0 \<and>
            float_overflow_bound \<le> \<bar>t / a\<bar> \<longrightarrow> unit_price c = Fin 0)
      \<and> total_price_major c \<noteq> NaN \<and> area_units c \<noteq> NaN
      \<and> (\<not> flt (total_price_major c) 0 \<and> \<not> flt (area_units c) 0 \<longrightarrow>
            (\<exists>x. unit_price c = Fin x \<and> 0 \<le> x)))"
proof
  fix c assume "c \<in> set (derived_records pint num rows ds tf)"
  then obtain r where d: "derive pint num r = Some c"
    by (auto simp: derived_records_iff)
  note f = derive_fields [OF d]
  have up: "unit_price c = fillna0 (replace_inf0 (fdiv (total_price_major c) (area_units c)))"
    using f by (simp add: calc_unit_price_def)
  have 1: "\<exists>x. unit_price c = Fin x"
    unfolding up by (rule replace_fill_finite)
  have tc: "total_price_major c \<noteq> NaN"
    using f total_major_not_nan [of num r] by simp
  have ac: "area_units c \<noteq> NaN"
    using f area_units_not_nan [of num r] by simp
  have 2: "feq (area_units c) 0 \<or> area_units c = PInf \<or> area_units c = NInf \<longrightarrow> unit_price c = Fin 0"
    using tc unfolding up by (cases "area_units c"; cases "total_price_major c") auto
  have 3: "total_price_major c = PInf \<or> total_price_major c = NInf \<longrightarrow> unit_price c = Fin 0"
    using ac unfolding up by (cases "area_units c"; cases "total_price_major c") auto
  have 4: "\<forall>t a. total_price_major c = Fin t \<and> area_units c = Fin a \<and> a \<noteq> 0 \<and>
            \<bar>t / a\<bar> < float_overflow_bound \<longrightarrow> unit_price c = Fin (t / a)"
    unfolding up by (auto simp: overflow_in_range)
  have 5: "\<forall>t a. total_price_major c = Fin t \<and> area_units c = Fin a \<and> a \<noteq> 0 \<and>
            float_overflow_bound \<le> \<bar>t / a\<bar> \<longrightarrow> unit_price c = Fin 0"
  proof (intro allI impI)
    fix t a
    assume h: "total_price_major c = Fin t \<and> area_units c = Fin a \<and> a \<noteq> 0 \<and>
            float_overflow_bound \<le> \<bar>t / a\<bar>"
    then have "overflow (t / a) = PInf \<or> overflow (t / a) = NInf"
      using overflow_out_of_range by blast
    then show "unit_price c = Fin 0"
      unfolding up using h by auto
  qed
  have 6: "\<not> flt (total_price_major c) 0 \<and> \<not> flt (area_units c) 0 \<longrightarrow>
            (\<exists>x. unit_price c = Fin x \<and> 0 \<le> x)"
  proof
    assume h: "\<not> flt (total_price_major c) 0 \<and> \<not> flt (area_units c) 0"
    show "\<exists>x. unit_price c = Fin x \<and> 0 \<le> x"
    proof (cases "total_price_major c")
      case (Fin t)
      show ?thesis
      proof (cases "area_units c")
        case (Fin a)
        have nn: "0 \<le> t / a" using h \<open>total_price_major c = Fin t\<close> Fin by simp
        show ?thesis
          using overflow_nonneg [OF nn] \<open>total_price_major c = Fin t\<close> Fin nn
          unfolding up by auto
      qed (use h tc ac \<open>total_price_major c = Fin t\<close> in \<open>auto simp: up\<close>)
    qed (use h tc ac in \<open>cases "area_units c"; auto simp: up\<close>)+
  qed
  show "(\<exists>x. unit_price c = Fin x)
      \<and> (feq (area_units c) 0 \<or> area_units c = PInf \<or> area_units c = NInf \<longrightarrow> unit_price c = Fin 0)
      \<and> (total_price_major c = PInf \<or> total_price_major c = NInf \<longrightarrow> unit_price c = Fin 0)
      \<and> (\<forall>t a. total_price_major c = Fin t \<and> area_units c = Fin a \<and> a \<noteq> 0 \<and>
            \<bar>t / a\<bar> < float_overflow_bound \<longrightarrow> unit_price c = Fin (t / a))
      \<and> (\<forall>t a. total_price_major c = Fin t \<and> area_units c = Fin a \<and> a \<noteq> 0 \<and>
            float_overflow_bound \<le> \<bar>t / a\<bar> \<longrightarrow> unit_price c = Fin 0)
      \<and> total_price_major c \<noteq> NaN \<and> area_units c \<noteq> NaN
      \<and> (\<not> flt (total_price_major c) 0 \<and> \<not> flt (area_units c) 0 \<longrightarrow>
            (\<exists>x. unit_price c = Fin x \<and> 0 \<le> x))"
    using 1 2 3 4 5 tc ac 6 by blast
qed

text \<open>
  C6, as stated, fails: the completion date \<open>1000101\<close> is the year \<open>100 + 1911 = 2011\<close>, so
  the building age is \<open>2024 - 2011 = 13\<close>, not 24.
\<close>

theorem scenario_age_counterexample:
  "map_option building_age (derive ascii_int dec_numeric scenario_row) \<noteq> Some 24"
  by (simp add: derive_scenario scenario_clean_def)

text \<open>
  C6, amended. The scenario row, whatever its other fields, passes the unfiltered pipeline
  with transaction year 2024, building age 13, total price 3000, area 30.25 and unit price
  \<open>3000 / 30.25\<close>, which is 99.17 to two decimals, and is retained in the clean set.
\<close>

theorem scenario_spec:
  "process_data ascii_int dec_numeric
      [\<lparr> district = d, subject = l,
         transaction_date = Some (ustr_of ''1130615''),
         completion_date = Some (ustr_of ''1000101''),
         total_price = Some (ustr_of ''30000000''),
         unit_price_per_area = u,
         building_area = Some (ustr_of ''100''),
         land_area = la \<rparr>] [] tok_all
    = [\<lparr> raw = \<lparr> district = d, subject = l,
         transaction_date = Some (ustr_of ''1130615''),
         completion_date = Some (ustr_of ''1000101''),
         total_price = Some (ustr_of ''30000000''),
         unit_price_per_area = u,
         building_area = Some (ustr_of ''100''),
         land_area = la \<rparr>,
         total_price_major = Fin 3000, area_units = Fin (3025 / 100),
         unit_price = Fin (3000 / (3025 / 100)), transaction_year = 2024, building_age = 13 \<rparr>]
   \<and> \<bar>3000 / (3025 / 100) - 9917 / 100\<bar> < (5 / 1000 :: real)"
  by (simp add: process_data_def derived_records_def keep_all in_band_def eval_defs)

text \<open>
  C7, as stated, fails: the completion date \<open>90101\<close> has five characters and the Calendar
  Normalizer gives no value for it, yet \<open>calc_age\<close> reads the year \<open>9 + 1911\<close> and returns
  the age 104 for a transaction in 2024.
\<close>

theorem calc_age_short_counterexample:
  "length (ustr_of ''90101'') < 6
   \<and> parse_roc_year ascii_int (Some (ustr_of ''90101'')) = None
   \<and> calc_age ascii_int (Some (ustr_of ''90101'')) 2024 = 104
   \<and> map_option building_age (derive ascii_int dec_numeric short_completion_row) = Some 104"
  by (simp add: eval_defs short_completion_row_def scenario_row_def)

lemma derive_completion_irrelevant:
  "map_option unit_price (derive pint num (r\<lparr>completion_date := cd\<rparr>)) =
     map_option unit_price (derive pint num r)"
  by (simp add: derive_def calc_unit_price_def calc_total_major_def calc_area_units_def
      building_units_def land_units_def split: option.splits)

text \<open>
  C7, amended. The building age is 0 when the completion date is missing, shorter than 3
  characters, or has a prefix (all but the last four characters, empty below 5
  characters) that does not parse as an integer; otherwise it is the transaction year
  minus (prefix + 1911), floored at 0. Every derived record carries that age, and the
  completion date never decides whether a row is derived or what its unit price is.
\<close>

theorem calc_age_spec:
  "calc_age pint None y = 0
   \<and> (length s < 3 \<longrightarrow> calc_age pint (Some s) y = 0)
   \<and> (pint (drop_last4 s) = None \<longrightarrow> calc_age pint (Some s) y = 0)
   \<and> (3 \<le> length s \<and> pint (drop_last4 s) = Some n \<longrightarrow>
        calc_age pint (Some s) y = max (y - (n + 1911)) 0)
   \<and> (length s < 5 \<longrightarrow> drop_last4 s = [])
   \<and> (\<forall>c \<in> set (derived_records pint num rows ds tf).
        building_age c = calc_age pint (completion_date (raw c)) (transaction_year c))
   \<and> map_option unit_price (derive pint num (r\<lparr>completion_date := cd\<rparr>)) =
       map_option unit_price (derive pint num r)"
proof -
  have 1: "calc_age pint None y = 0"
    by (simp add: calc_age_def)
  have 2: "length s < 3 \<longrightarrow> calc_age pint (Some s) y = 0"
    by (simp add: calc_age_def)
  have 3: "pint (drop_last4 s) = None \<longrightarrow> calc_age pint (Some s) y = 0"
    by (simp add: calc_age_def)
  have 4: "3 \<le> length s \<and> pint (drop_last4 s) = Some n \<longrightarrow>
        calc_age pint (Some s) y = max (y - (n + 1911)) 0"
    by (simp add: calc_age_def)
  have 5: "length s < 5 \<longrightarrow> drop_last4 s = []"
    by (simp add: drop_last4_def)
  have 6: "\<forall>c \<in> set (derived_records pint num rows ds tf).
        building_age c = calc_age pint (completion_date (raw c)) (transaction_year c)"
    by (auto simp: derived_records_iff dest!: derive_fields)
  show ?thesis
    using 1 2 3 4 5 6 derive_completion_irrelevant [where pint = pint and num = num and r = r and cd = cd] by blast
qed

text \<open>
  C8, as stated, fails: a label with the land token followed by the building token
  (U+571F U+5730 U+5EFA U+7269) is kept by both modes.
\<close>

theorem subject_modes_counterexample:
  "keep_land_only land_and_building_label \<and> keep_building_land land_and_building_label"
  by (simp add: keep_land_only_def keep_building_land_def land_and_building_label_def
      tok_land_def tok_building_def tok_building_and_land_def)

text \<open>
  C8, amended. A label is kept by both modes exactly when it contains the land token and
  the building token but not the building-and-land token. A label without the building
  token is never kept by both, and a label with the building-and-land token is kept by the
  building mode only.
\<close>

theorem subject_modes_spec:
  "(keep_land_only l \<and> keep_building_land l) =
     (contains l tok_land \<and> contains l tok_building \<and> \<not> contains l tok_building_and_land)
   \<and> (\<not> contains l tok_building \<longrightarrow> \<not> (keep_land_only l \<and> keep_building_land l))
   \<and> (contains l tok_building_and_land \<longrightarrow> \<not> keep_land_only l \<and> keep_building_land l)
   \<and> (\<not> contains (subject r) tok_building \<longrightarrow>
        \<not> (subject_keep tok_land r \<and> subject_keep tok_building_and_land r))"
  by (auto simp: keep_land_only_def keep_building_land_def subject_keep_def tok_land_def
      tok_building_and_land_def)

lemma derive_zero_area: "derive ascii_int dec_numeric zero_area_row = Some zero_area_clean"
  by (simp add: eval_defs scenario_row_def zero_area_row_def zero_area_clean_def)

lemma derived_zero_area:
  "derived_records ascii_int dec_numeric [scenario_row, zero_area_row] [] tok_all =
     [scenario_clean, zero_area_clean]"
  by (simp add: derived_records_def keep_all derive_scenario derive_zero_area)

lemma derive_overflow: "derive ascii_int sci_numeric overflow_row = Some overflow_clean"
  by (simp add: eval_defs sci_numeric_def scenario_row_def overflow_row_def overflow_clean_def)

lemma derive_infinite_total:
  "derive ascii_int sci_numeric infinite_total_row = Some infinite_total_clean"
  by (simp add: eval_defs sci_numeric_def scenario_row_def infinite_total_row_def
      infinite_total_clean_def)

lemma derived_overflow:
  "derived_records ascii_int sci_numeric [overflow_row, infinite_total_row] [] tok_all =
     [overflow_clean, infinite_total_clean]"
  by (simp add: derived_records_def keep_all derive_overflow derive_infinite_total)

text \<open>
  A row with building and land area 0 and the scenario row; a row with the cells \<open>1e308\<close>
  and \<open>0.0001\<close>, whose quotient overflows, and a row with an infinite total price.
\<close>

theorem unit_price_finite_spec_witness:
  "zero_area_clean \<in> set (derived_records ascii_int dec_numeric [scenario_row, zero_area_row] [] tok_all)
   \<and> feq (area_units zero_area_clean) 0
   \<and> unit_price zero_area_clean = Fin 0
   \<and> scenario_clean \<in> set (derived_records ascii_int dec_numeric [scenario_row, zero_area_row] [] tok_all)
   \<and> unit_price scenario_clean = Fin (3000 / (121 / 4))
   \<and> (0 :: real) \<le> 12000 / 121
   \<and> overflow_clean \<in> set (derived_records ascii_int sci_numeric [overflow_row, infinite_total_row] [] tok_all)
   \<and> float_overflow_bound \<le> \<bar>10 ^ 304 / (121 / 4000000)\<bar>
   \<and> unit_price overflow_clean = Fin 0
   \<and> infinite_total_clean \<in> set (derived_records ascii_int sci_numeric [overflow_row, infinite_total_row] [] tok_all)
   \<and> total_price_major infinite_total_clean = PInf
   \<and> unit_price infinite_total_clean = Fin 0"
proof -
  note T = unit_price_finite_spec [of ascii_int dec_numeric "[scenario_row, zero_area_row]" "[]" tok_all]
  note U = unit_price_finite_spec [of ascii_int sci_numeric "[overflow_row, infinite_total_row]" "[]" tok_all]
  have inZ: "zero_area_clean \<in> set (derived_records ascii_int dec_numeric [scenario_row, zero_area_row] [] tok_all)"
    by (simp add: derived_zero_area)
  have inS: "scenario_clean \<in> set (derived_records ascii_int dec_numeric [scenario_row, zero_area_row] [] tok_all)"
    by (simp add: derived_zero_area)
  have inO: "overflow_clean \<in> set (derived_records ascii_int sci_numeric [overflow_row, infinite_total_row] [] tok_all)"
    by (simp add: derived_overflow)
  have inI: "infinite_total_clean \<in> set (derived_records ascii_int sci_numeric [overflow_row, infinite_total_row] [] tok_all)"
    by (simp add: derived_overflow)
  have z: "feq (area_units zero_area_clean) 0"
    by (simp add: zero_area_clean_def)
  from T inZ z have 1: "unit_price zero_area_clean = Fin 0"
    by blast
  have f: "total_price_major scenario_clean = Fin 3000 \<and> area_units scenario_clean = Fin (121 / 4)
      \<and> (121 / 4 :: real) \<noteq> 0 \<and> \<bar>3000 / (121 / 4)\<bar> < float_overflow_bound"
    by (simp add: scenario_clean_def float_overflow_bound_def)
  from T inS f have 2: "unit_price scenario_clean = Fin (3000 / (121 / 4))"
    by blast
  have n: "\<not> flt (total_price_major scenario_clean) 0 \<and> \<not> flt (area_units scenario_clean) 0"
    by (simp add: scenario_clean_def)
  from T inS n have "\<exists>x. unit_price scenario_clean = Fin x \<and> 0 \<le> x"
    by blast
  then have "(0 :: real) \<le> 3000 / (121 / 4)" using 2 by auto
  then have 3: "(0 :: real) \<le> 12000 / 121" by simp
  have ob: "float_overflow_bound \<le> \<bar>10 ^ 304 / (121 / 4000000)\<bar>"
    by (simp add: float_overflow_bound_def)
  have g: "total_price_major overflow_clean = Fin (10 ^ 304)
      \<and> area_units overflow_clean = Fin (121 / 4000000) \<and> (121 / 4000000 :: real) \<noteq> 0"
    by (simp add: overflow_clean_def)
  from U inO g ob have 4: "unit_price overflow_clean = Fin 0"
    by blast
  have p: "total_price_major infinite_total_clean = PInf"
    by (simp add: infinite_total_clean_def)
  from U inI p have 5: "unit_price infinite_total_clean = Fin 0"
    by blast
  show ?thesis using inZ inS inO inI z 1 2 3 ob 4 p 5 by blast
qed

text \<open>The age cases at concrete completion dates.\<close>

theorem calc_age_spec_witness:
  "calc_age ascii_int (Some (ustr_of ''1000101'')) 2024 = max (2024 - (100 + 1911)) 0
   \<and> calc_age ascii_int (Some (ustr_of ''12'')) 2024 = 0
   \<and> calc_age ascii_int (Some (ustr_of ''x000101'')) 2024 = 0
   \<and> drop_last4 (ustr_of ''0101'') = []
   \<and> building_age scenario_clean =
       calc_age ascii_int (completion_date (raw scenario_clean)) (transaction_year scenario_clean)"
proof -
  have h1: "3 \<le> length (ustr_of ''1000101'') \<and> ascii_int (drop_last4 (ustr_of ''1000101'')) = Some 100"
    by (simp add: ustr_of_def drop_last4_def ascii_int_def digit_val_def)
  have h2: "length (ustr_of ''12'') < 3"
    by (simp add: ustr_of_def)
  have h3: "ascii_int (drop_last4 (ustr_of ''x000101'')) = None"
    by (simp add: ustr_of_def drop_last4_def ascii_int_def digit_val_def)
  have h4: "length (ustr_of ''0101'') < 5"
    by (simp add: ustr_of_def)
  have h5: "scenario_clean \<in> set (derived_records ascii_int dec_numeric [scenario_row, zero_price_row] [] tok_all)"
    by (simp add: derived_two)
  from h1 calc_age_spec [of ascii_int 2024 "ustr_of ''1000101''" 100]
  have 1: "calc_age ascii_int (Some (ustr_of ''1000101'')) 2024 = max (2024 - (100 + 1911)) 0"
    by blast
  from h2 calc_age_spec [of ascii_int 2024 "ustr_of ''12''"]
  have 2: "calc_age ascii_int (Some (ustr_of ''12'')) 2024 = 0"
    by blast
  from h3 calc_age_spec [of ascii_int 2024 "ustr_of ''x000101''"]
  have 3: "calc_age ascii_int (Some (ustr_of ''x000101'')) 2024 = 0"
    by blast
  from h4 calc_age_spec [of ascii_int 0 "ustr_of ''0101''"]
  have 4: "drop_last4 (ustr_of ''0101'') = []"
    by blast
  from h5 calc_age_spec [of ascii_int 0 "[]" 0 dec_numeric "[scenario_row, zero_price_row]" "[]" tok_all]
  have 5: "building_age scenario_clean =
       calc_age ascii_int (completion_date (raw scenario_clean)) (transaction_year scenario_clean)"
    by blast
  show ?thesis using 1 2 3 4 5 by blast
qed

text \<open>The labels that are exactly the land token and the building-and-land token.\<close>

theorem subject_modes_spec_witness:
  "\<not> (keep_land_only tok_land \<and> keep_building_land tok_land)
   \<and> \<not> keep_land_only tok_building_and_land
   \<and> keep_building_land tok_building_and_land
   \<and> \<not> (subject_keep tok_land (scenario_row\<lparr>subject := tok_land\<rparr>) \<and>
         subject_keep tok_building_and_land (scenario_row\<lparr>subject := tok_land\<rparr>))"
proof -
  have h1: "\<not> contains tok_land tok_building"
    by (simp add: tok_land_def tok_building_def)
  have h2: "contains tok_building_and_land tok_building_and_land"
    by (simp add: tok_building_and_land_def)
  have h3: "\<not> contains (subject (scenario_row\<lparr>subject := tok_land\<rparr>)) tok_building"
    by (simp add: tok_land_def tok_building_def)
  from h1 subject_modes_spec [of tok_land]
  have 1: "\<not> (keep_land_only tok_land \<and> keep_building_land tok_land)"
    by blast
  from h2 subject_modes_spec [of tok_building_and_land]
  have 2: "\<not> keep_land_only tok_building_and_land \<and> keep_building_land tok_building_and_land"
    by blast
  from h3 subject_modes_spec [of "[]" "scenario_row\<lparr>subject := tok_land\<rparr>"]
  have 3: "\<not> (subject_keep tok_land (scenario_row\<lparr>subject := tok_land\<rparr>) \<and>
         subject_keep tok_building_and_land (scenario_row\<lparr>subject := tok_land\<rparr>))"
    by blast
  show ?thesis using 1 2 3 by blast
qed

section \<open>Properties of the Interval Analyzer\<close>

lemma py_range_length: "length (py_range a b s) = nat ((b - a + s - 1) div s)"
  by (simp add: py_range_def)

lemma py_range_nth: "k < length (py_range a b s) \<Longrightarrow> py_range a b s ! k = a + int k * s"
  by (simp add: py_range_def)

lemma py_range_sorted: "0 < s \<Longrightarrow> sorted_wrt (<) (py_range a b s)"
  by (simp add: sorted_wrt_iff_nth_less py_range_nth)

lemma upper_gt_lower: "0 < step \<Longrightarrow> lower_bound xs < upper_bound xs step"
  by (simp add: upper_bound_def Let_def)

lemma ceil_div_bounds:
  fixes d s :: int
  assumes "0 < s"
  shows "d \<le> ((d + s - 1) div s) * s" and "((d + s - 1) div s) * s < d + s"
proof -
  have e: "(d + s - 1) div s * s + (d + s - 1) mod s = d + s - 1"
    by simp
  have l: "0 \<le> (d + s - 1) mod s" and u: "(d + s - 1) mod s < s"
    using assms by simp_all
  show "d \<le> ((d + s - 1) div s) * s" using e l u by linarith
  show "((d + s - 1) div s) * s < d + s" using e l u by linarith
qed

lemma two_le_div:
  fixes d s :: int
  assumes "0 < s" "1 \<le> d"
  shows "2 \<le> (d + s + s - 1) div s" and "(d + s + s - 1) div s = (d + s - 1) div s + 1"
proof -
  have "(d + s + s - 1) div s = ((d + s - 1) + s) div s" by (simp add: algebra_simps)
  also have "\<dots> = (d + s - 1) div s + 1"
  proof (rule div_add_self2)
    show "s \<noteq> 0" using assms(1) by simp
  qed
  finally show eq: "(d + s + s - 1) div s = (d + s - 1) div s + 1" .
  have "0 < ((d + s - 1) div s) * s" using ceil_div_bounds(1) [OF assms(1), of d] assms(2) by linarith
  then have "0 < (d + s - 1) div s" using assms(1) by (simp add: zero_less_mult_iff)
  then show "2 \<le> (d + s + s - 1) div s" using eq by linarith
qed

lemma count_below:
  "sorted_wrt (<) es \<Longrightarrow> length (filter (\<lambda>e. real_of_int e < v) es) = c \<Longrightarrow>
     \<forall>j < length es. (real_of_int (es ! j) < v) = (j < c)"
proof (induction es arbitrary: c)
  case Nil
  then show ?case by simp
next
  case (Cons e es)
  show ?case
  proof (cases "real_of_int e < v")
    case True
    then obtain c' where c': "c = Suc c'" "length (filter (\<lambda>e. real_of_int e < v) es) = c'"
      using Cons.prems by auto
    from Cons.IH [OF _ c'(2)] Cons.prems(1)
    have IH: "\<forall>j < length es. (real_of_int (es ! j) < v) = (j < c')" by simp
    show ?thesis
    proof (intro allI impI)
      fix j assume "j < length (e # es)"
      then show "(real_of_int ((e # es) ! j) < v) = (j < c)"
        using True IH c'(1) by (cases j) auto
    qed
  next
    case False
    have all: "\<forall>x \<in> set es. \<not> real_of_int x < v"
      using False Cons.prems(1) by fastforce
    then have "filter (\<lambda>e. real_of_int e < v) es = []"
      by (simp add: filter_empty_conv)
    then have c0: "c = 0" using False Cons.prems(2) by simp
    show ?thesis
    proof (intro allI impI)
      fix j assume "j < length (e # es)"
      then show "(real_of_int ((e # es) ! j) < v) = (j < c)"
        using False all c0 by (cases j) auto
    qed
  qed
qed

lemma cut_index_iff:
  assumes "sorted_wrt (<) es"
  shows "cut_index es v = Some k \<longleftrightarrow> in_bin es k v"
proof (cases es)
  case Nil
  then show ?thesis by (simp add: cut_index_def in_bin_def)
next
  case (Cons e0 rest)
  define c where "c = length (filter (\<lambda>e. real_of_int e < v) es)"
  have cb: "\<forall>j < length es. (real_of_int (es ! j) < v) = (j < c)"
    using count_below [OF assms] c_def by simp
  have cle: "c \<le> length es" unfolding c_def by simp
  have e0: "es ! 0 = e0" using Cons by simp
  show ?thesis
  proof (cases "v = real_of_int e0")
    case True
    have cut: "cut_index es v = (if length es = 1 then None else Some 0)"
      using True Cons by (simp add: cut_index_def)
    have later: "\<forall>j. 0 < j \<and> j < length es \<longrightarrow> \<not> real_of_int (es ! j) < v"
    proof (intro allI impI)
      fix j assume j: "0 < j \<and> j < length es"
      then have "es ! 0 < es ! j" using assms by (simp add: sorted_wrt_iff_nth_less)
      then show "\<not> real_of_int (es ! j) < v" using True e0 by simp
    qed
    show ?thesis
    proof (cases "k = 0")
      case k0: True
      show ?thesis using cut True e0 k0 Cons by (auto simp: in_bin_def)
    next
      case kn: False
      have "\<not> in_bin es k v"
        using later kn True e0 by (auto simp: in_bin_def)
      then show ?thesis using cut kn by (auto split: if_splits)
    qed
  next
    case False
    have cut: "cut_index es v = (if c = length es \<or> c = 0 then None else Some (c - 1))"
      using False Cons c_def by (simp add: cut_index_def)
    have "in_bin es k v \<longleftrightarrow> k + 1 < length es \<and> k < c \<and> \<not> k + 1 < c"
      using cb False e0 by (auto simp: in_bin_def not_less)
    then show ?thesis using cut cle by (auto split: if_splits)
  qed
qed

lemma bin_edges_length:
  assumes "0 < step"
  shows "2 \<le> length (bin_edges xs step)"
    and "int (length (bin_edges xs step) - 1) =
           (upper_bound xs step - lower_bound xs + int step - 1) div int step"
proof -
  let ?d = "upper_bound xs step - lower_bound xs"
  let ?s = "int step"
  have s: "0 < ?s" using assms by simp
  have d: "1 \<le> ?d" using upper_gt_lower [OF assms, of xs] by simp
  have len: "length (bin_edges xs step) = nat ((?d + ?s + ?s - 1) div ?s)"
    by (simp add: bin_edges_def py_range_length algebra_simps)
  from two_le_div [OF s d] len
  show "2 \<le> length (bin_edges xs step)" by linarith
  from two_le_div [OF s d] len
  show "int (length (bin_edges xs step) - 1) = (?d + ?s - 1) div ?s" by linarith
qed

lemma bin_edges_nth:
  "k < length (bin_edges xs step) \<Longrightarrow> bin_edges xs step ! k = lower_bound xs + int k * int step"
  by (simp add: bin_edges_def py_range_nth)

lemma bin_edges_sorted: "0 < step \<Longrightarrow> sorted_wrt (<) (bin_edges xs step)"
  by (simp add: bin_edges_def py_range_sorted)

lemma bin_edges_last:
  assumes "0 < step"
  shows "upper_bound xs step \<le> last (bin_edges xs step)"
    and "last (bin_edges xs step) < upper_bound xs step + int step"
proof -
  let ?es = "bin_edges xs step"
  let ?d = "upper_bound xs step - lower_bound xs"
  let ?s = "int step"
  have s: "0 < ?s" using assms by simp
  have ne: "?es \<noteq> []" using bin_edges_length(1) [OF assms, of xs] by auto
  have "last ?es = ?es ! (length ?es - 1)" using ne by (rule last_conv_nth)
  also have "\<dots> = lower_bound xs + int (length ?es - 1) * ?s"
    using ne by (simp add: bin_edges_nth)
  also have "\<dots> = lower_bound xs + ((?d + ?s - 1) div ?s) * ?s"
    using bin_edges_length(2) [OF assms, of xs] by simp
  finally have l: "last ?es = lower_bound xs + ((?d + ?s - 1) div ?s) * ?s" .
  show "upper_bound xs step \<le> last ?es"
    using ceil_div_bounds(1) [OF s, of ?d] l by linarith
  show "last ?es < upper_bound xs step + ?s"
    using ceil_div_bounds(2) [OF s, of ?d] l by linarith
qed

lemma cut_index_range:
  assumes "sorted_wrt (<) es" "2 \<le> length es"
  shows "(\<exists>k. cut_index es v = Some k) \<longleftrightarrow>
           (real_of_int (es ! 0) \<le> v \<and> v \<le> real_of_int (last es))"
proof -
  obtain e0 rest where Cons: "es = e0 # rest" using assms(2) by (cases es) auto
  define c where "c = length (filter (\<lambda>e. real_of_int e < v) es)"
  have cb: "\<forall>j < length es. (real_of_int (es ! j) < v) = (j < c)"
    using count_below [OF assms(1)] c_def by simp
  have cle: "c \<le> length es" unfolding c_def by simp
  have la: "last es = es ! (length es - 1)" using Cons by (simp add: last_conv_nth)
  have mono: "es ! 0 < last es"
    unfolding la using assms by (simp add: sorted_wrt_iff_nth_less)
  have pos: "0 < length es" and lst: "length es - 1 < length es"
    using Cons by simp_all
  have c0: "(real_of_int (es ! 0) < v) = (0 < c)"
    using cb [rule_format, OF pos] .
  have "(real_of_int (es ! (length es - 1)) < v) = (length es - 1 < c)"
    using cb [rule_format, OF lst] .
  moreover have "(length es - 1 < c) = (c = length es)"
    using cle assms(2) by arith
  ultimately have cl: "(real_of_int (last es) < v) = (c = length es)"
    unfolding la by simp
  show ?thesis
  proof (cases "v = real_of_int e0")
    case True
    have "cut_index es v = Some 0" using True Cons assms(2) by (auto simp: cut_index_def)
    then show ?thesis using True Cons mono by simp
  next
    case False
    have cut: "cut_index es v = (if c = length es \<or> c = 0 then None else Some (c - 1))"
      using False Cons c_def by (simp add: cut_index_def)
    show ?thesis using cut c0 cl False Cons by (auto simp: not_less)
  qed
qed

lemma intervals_length: "length (intervals es) = length es - 1"
  by (simp add: intervals_def)

lemma intervals_nth: "k + 1 < length es \<Longrightarrow> intervals es ! k = (es ! k, es ! (k + 1))"
  by (simp add: intervals_def nth_tl)

lemma indicator_sum:
  "sum_list (map (\<lambda>k. if f = Some k then 1 else 0) [0..<n]) = (if \<exists>k<n. f = Some k then 1 else (0::nat))"
  by (induction n) (auto simp: less_Suc_eq)

lemma sum_bin_counts:
  "sum_list (map (bin_count es xs) [0..<n]) =
     length (filter (\<lambda>x. \<exists>k<n. cut_index es x = Some k) xs)"
proof (induction xs)
  case Nil
  then show ?case by (simp add: bin_count_def)
next
  case (Cons x xs)
  have "bin_count es (x # xs) = (\<lambda>k. (if cut_index es x = Some k then 1 else 0) + bin_count es xs k)"
    by (auto simp: bin_count_def)
  then have "sum_list (map (bin_count es (x # xs)) [0..<n]) =
      sum_list (map (\<lambda>k. if cut_index es x = Some k then 1 else 0) [0..<n]) +
      sum_list (map (bin_count es xs) [0..<n])"
    by (simp add: sum_list_addf)
  then show ?case using Cons.IH indicator_sum [of "cut_index es x" n] by simp
qed

lemma in_bin_unique:
  assumes "sorted_wrt (<) es" "in_bin es j v" "in_bin es k v"
  shows "j = k"
  using assms cut_index_iff [OF assms(1), of v] by (metis option.inject)

lemma value_counts_length: "length (value_counts es xs) = length es - 1"
  by (simp add: value_counts_def intervals_length)

lemma value_counts_nth:
  assumes "sorted_wrt (<) es" "k + 1 < length es"
  shows "value_counts es xs ! k = ((es ! k, es ! (k + 1)), length (filter (in_bin es k) xs))"
proof -
  have "bin_count es xs k = length (filter (in_bin es k) xs)"
    using cut_index_iff [OF assms(1)] by (simp add: bin_count_def)
  moreover have "k < length es - 1" using assms(2) by simp
  ultimately show ?thesis
    using assms(2) by (simp add: value_counts_def intervals_length intervals_nth)
qed

lemma value_counts_sum:
  assumes "sorted_wrt (<) es" "2 \<le> length es"
  shows "sum_list (map snd (value_counts es xs)) =
           length (filter (\<lambda>v. real_of_int (es ! 0) \<le> v \<and> v \<le> real_of_int (last es)) xs)"
proof -
  have b: "cut_index es x = Some k \<Longrightarrow> k < length es - 1" for x k
    using cut_index_iff [OF assms(1), of x k] by (auto simp: in_bin_def)
  have k: "\<And>x. (\<exists>k < length es - 1. cut_index es x = Some k) = (\<exists>k. cut_index es x = Some k)"
    using b by blast
  have "map snd (value_counts es xs) = map (bin_count es xs) [0..<length es - 1]"
    by (simp add: value_counts_def intervals_length)
  then have "sum_list (map snd (value_counts es xs)) =
      length (filter (\<lambda>x. \<exists>k < length es - 1. cut_index es x = Some k) xs)"
    by (simp add: sum_bin_counts)
  then show ?thesis
    unfolding k cut_index_range [OF assms] .
qed

text \<open>
  C5, as stated, fails. For the column \<open>1, 6, 11, 11.5\<close> and width 5 the edges are
  \<open>1, 6, 11\<close>. The value 6 lies on an inner edge and is put into the bin that ends there,
  \<open>(1, 6)\<close>, so the bins are not left-inclusive. The value 11.5 lies in
  \<open>[floor(minimum), floor(95th percentile) + width) = [1, 16)\<close> and has no bin.
\<close>

theorem interval_bins_counterexample:
  "lower_bound example_column = 1
   \<and> upper_bound example_column 5 = 11
   \<and> bin_edges example_column 5 = [1, 6, 11]
   \<and> cut_index (bin_edges example_column 5) 6 = Some 0
   \<and> intervals (bin_edges example_column 5) ! 0 = (1, 6)
   \<and> real_of_int 1 \<le> 23 / 2 \<and> 23 / 2 < real_of_int (11 + 5)
   \<and> cut_index (bin_edges example_column 5) (23 / 2) = None"
  by code_simp

text \<open>
  C5, amended. For a positive width the edges are \<open>int(minimum) + k * width\<close>, at least two
  of them, the last one at or above the upper bound and less than a width above it. The
  bins are the intervals between neighbouring edges, open on the left and closed on the
  right, the first one closed on the left as well; no value is in two bins. A value has a
  bin exactly when it lies between the first and the last edge (both included), each bin's
  count is the number of values in it, and the counts add up to the number of values in
  that range.
\<close>

theorem interval_bins_spec:
  fixes xs :: "real list" and step :: nat
  defines "es \<equiv> bin_edges xs step"
  assumes "0 < step"
  shows "2 \<le> length es
    \<and> (\<forall>k < length es. es ! k = lower_bound xs + int k * int step)
    \<and> upper_bound xs step \<le> last es \<and> last es < upper_bound xs step + int step
    \<and> (\<forall>v k. (cut_index es v = Some k) = in_bin es k v)
    \<and> (\<forall>v j k. in_bin es j v \<and> in_bin es k v \<longrightarrow> j = k)
    \<and> (\<forall>v. (\<exists>k. cut_index es v = Some k) =
             (real_of_int (lower_bound xs) \<le> v \<and> v \<le> real_of_int (last es)))
    \<and> length (value_counts es xs) = length es - 1
    \<and> (\<forall>k. k + 1 < length es \<longrightarrow>
          value_counts es xs ! k = ((es ! k, es ! (k + 1)), length (filter (in_bin es k) xs)))
    \<and> sum_list (map snd (value_counts es xs)) =
        length (filter (\<lambda>v. real_of_int (lower_bound xs) \<le> v \<and> v \<le> real_of_int (last es)) xs)"
proof -
  have so: "sorted_wrt (<) es" unfolding es_def using assms(2) by (rule bin_edges_sorted)
  have len: "2 \<le> length es" unfolding es_def using assms(2) by (rule bin_edges_length(1))
  have nth: "\<forall>k < length es. es ! k = lower_bound xs + int k * int step"
    unfolding es_def by (simp add: bin_edges_nth)
  have "0 < length es" using len by auto
  from nth [rule_format, OF this] have e0: "es ! 0 = lower_bound xs" by simp
  have la: "upper_bound xs step \<le> last es \<and> last es < upper_bound xs step + int step"
    unfolding es_def using bin_edges_last [OF assms(2)] by simp
  have iff: "\<forall>v k. (cut_index es v = Some k) = in_bin es k v"
    using cut_index_iff [OF so] by simp
  have uniq: "\<forall>v j k. in_bin es j v \<and> in_bin es k v \<longrightarrow> j = k"
    using in_bin_unique [OF so] by blast
  have rng: "\<forall>v. (\<exists>k. cut_index es v = Some k) =
             (real_of_int (lower_bound xs) \<le> v \<and> v \<le> real_of_int (last es))"
    using cut_index_range [OF so len] e0 by simp
  have vl: "length (value_counts es xs) = length es - 1"
    by (rule value_counts_length)
  have vn: "\<forall>k. k + 1 < length es \<longrightarrow>
          value_counts es xs ! k = ((es ! k, es ! (k + 1)), length (filter (in_bin es k) xs))"
    using value_counts_nth [OF so] by blast
  have vs: "sum_list (map snd (value_counts es xs)) =
        length (filter (\<lambda>v. real_of_int (lower_bound xs) \<le> v \<and> v \<le> real_of_int (last es)) xs)"
    using value_counts_sum [OF so len, of xs] e0 by simp
  show ?thesis using len nth la iff uniq rng vl vn vs by blast
qed

text \<open>The bins of the column \<open>1, 6, 11, 11.5\<close> with width 5.\<close>

theorem interval_bins_spec_witness:
  "bin_edges example_column 5 ! 1 = lower_bound example_column + int 1 * int 5
   \<and> in_bin (bin_edges example_column 5) 0 6
   \<and> value_counts (bin_edges example_column 5) example_column ! 0 =
       ((bin_edges example_column 5 ! 0, bin_edges example_column 5 ! (0 + 1)),
        length (filter (in_bin (bin_edges example_column 5) 0) example_column))
   \<and> sum_list (map snd (value_counts (bin_edges example_column 5) example_column)) = 3"
proof -
  note T = interval_bins_spec [of 5 example_column]
  have pos: "(0 :: nat) < 5" by simp
  have es: "bin_edges example_column 5 = [1, 6, 11]" by code_simp
  have lo: "lower_bound example_column = 1" by code_simp
  have k1: "1 < length (bin_edges example_column 5)" by (simp add: es)
  have k0: "0 + 1 < length (bin_edges example_column 5)" by (simp add: es)
  have c6: "cut_index (bin_edges example_column 5) 6 = Some 0" by code_simp
  have cnt: "length (filter (\<lambda>v. real_of_int (lower_bound example_column) \<le> v \<and>
      v \<le> real_of_int (last (bin_edges example_column 5))) example_column) = 3"
    unfolding es lo by (simp add: example_column_def)
  from T [OF pos] k1
  have 1: "bin_edges example_column 5 ! 1 = lower_bound example_column + int 1 * int 5"
    by blast
  from T [OF pos] c6
  have 2: "in_bin (bin_edges example_column 5) 0 6"
    by blast
  from T [OF pos] k0
  have 3: "value_counts (bin_edges example_column 5) example_column ! 0 =
       ((bin_edges example_column 5 ! 0, bin_edges example_column 5 ! (0 + 1)),
        length (filter (in_bin (bin_edges example_column 5) 0) example_column))"
    by blast
  from T [OF pos] cnt
  have 4: "sum_list (map snd (value_counts (bin_edges example_column 5) example_column)) = 3"
    by simp
  show ?thesis using 1 2 3 4 by blast
qed

lemma desc_sort_is_desc_sort: "is_desc_sort desc_sort"
proof -
  have "sorted_wrt (\<lambda>p q. snd q \<le> snd p) (desc_sort cs)" for cs
  proof -
    have "sorted (map (\<lambda>p. - int (snd p)) (desc_sort cs))"
      unfolding desc_sort_def by (rule sorted_sort_key)
    then show ?thesis by (simp add: sorted_map)
  qed
  moreover have "mset (desc_sort cs) = mset cs" for cs
    by (simp add: desc_sort_def)
  ultimately show ?thesis by (simp add: is_desc_sort_def)
qed

lemma desc_head_max:
  assumes "is_desc_sort srt" "srt cs = p # ps" "q \<in> set cs"
  shows "snd q \<le> snd p"
proof -
  have m: "mset (srt cs) = mset cs" and so: "sorted_wrt (\<lambda>p q. snd q \<le> snd p) (srt cs)"
    using assms(1) by (simp_all add: is_desc_sort_def)
  have "set (srt cs) = set cs" using m by (rule mset_eq_setD)
  then have "q \<in> set (p # ps)" using assms(2,3) by simp
  then show ?thesis using so assms(2) by auto
qed

lemma desc_sort_nonempty:
  assumes "is_desc_sort srt" "cs \<noteq> []"
  shows "\<exists>p ps. srt cs = p # ps \<and> p \<in> set cs"
proof -
  have m: "mset (srt cs) = mset cs" using assms(1) by (simp add: is_desc_sort_def)
  then have "set (srt cs) = set cs" by (rule mset_eq_setD)
  moreover have "srt cs \<noteq> []" using m assms(2) by (metis mset_zero_iff)
  ultimately show ?thesis by (cases "srt cs") auto
qed

lemma min_in_first_bin:
  assumes "0 < step" "xs \<noteq> []" "0 \<le> min_list xs"
  shows "in_bin (bin_edges xs step) 0 (min_list xs)"
proof -
  let ?es = "bin_edges xs step"
  let ?m = "min_list xs"
  have len: "2 \<le> length ?es" using assms(1) by (rule bin_edges_length(1))
  then have l0: "0 < length ?es" and l1: "1 < length ?es" by auto
  have lo: "lower_bound xs = \<lfloor>?m\<rfloor>" using assms(3) by (simp add: lower_bound_def py_trunc_def)
  have e0: "?es ! 0 = \<lfloor>?m\<rfloor>" using bin_edges_nth [OF l0] lo by simp
  have e1: "?es ! 1 = \<lfloor>?m\<rfloor> + int step" using bin_edges_nth [OF l1] lo by simp
  have a: "real_of_int \<lfloor>?m\<rfloor> \<le> ?m" by simp
  have "?m < real_of_int \<lfloor>?m\<rfloor> + 1" by linarith
  moreover have "(1 :: real) \<le> real step" using assms(1) by simp
  moreover have "real_of_int (\<lfloor>?m\<rfloor> + int step) = real_of_int \<lfloor>?m\<rfloor> + real step" by simp
  ultimately have b: "?m \<le> real_of_int (\<lfloor>?m\<rfloor> + int step)" by linarith
  have c: "real_of_int \<lfloor>?m\<rfloor> < ?m \<or> ?m = real_of_int \<lfloor>?m\<rfloor>"
    using a by linarith
  have "0 + 1 < length ?es" using l1 by simp
  moreover have "real_of_int (?es ! 0) < ?m \<and> ?m \<le> real_of_int (?es ! (0 + 1))
      \<or> ?m = real_of_int (?es ! 0)"
    using b c e0 e1 by auto
  ultimately show ?thesis
    unfolding in_bin_def by blast
qed

text \<open>
  C10, as stated, fails. A row with total price \<open>-5000\<close> and building area \<open>-1\<close> has the
  unit price \<open>200 / 121\<close> and stays in the clean set; its total price column is \<open>-0.5\<close>.
  \<open>int(-0.5)\<close> is 0, not \<open>-1\<close>, the only bin is \<open>[0, 100]\<close>, and the analyzer returns it
  with the count 0.
\<close>

theorem analyze_best_range_counterexample:
  "process_data ascii_int dec_numeric [double_negative_row] [] tok_all = [double_negative_clean]
   \<and> total_price_major double_negative_clean = Fin (- 1 / 2)
   \<and> analyze_best_range desc_sort [- 1 / 2] 100 = Inr (Some (0, 100), 0)"
proof -
  have d: "derive ascii_int dec_numeric double_negative_row = Some double_negative_clean"
    by (simp add: eval_defs scenario_row_def double_negative_row_def double_negative_clean_def)
  have 1: "process_data ascii_int dec_numeric [double_negative_row] [] tok_all = [double_negative_clean]"
    by (simp add: process_data_def derived_records_def keep_all d in_band_def
        double_negative_clean_def)
  have 2: "total_price_major double_negative_clean = Fin (- 1 / 2)"
    by (simp add: double_negative_clean_def)
  have 3: "analyze_best_range desc_sort [- 1 / 2] 100 = Inr (Some (0, 100), 0)"
    by code_simp
  show ?thesis using 1 2 3 by blast
qed

text \<open>
  C10, amended. For a non-empty column, a positive width and any descending sort of the
  counts, the analyzer returns an interval, never the "no interval" result; the interval
  is one of the bins and no bin has a larger count. When the column minimum is not
  negative, the minimum lies in the first bin and the returned count is at least 1.
\<close>

theorem analyze_best_range_spec:
  assumes "xs \<noteq> []" "0 < step" "is_desc_sort srt"
  shows "\<exists>iv n. analyze_best_range srt xs step = Inr (Some iv, n)
           \<and> (iv, n) \<in> set (value_counts (bin_edges xs step) xs)
           \<and> (\<forall>q \<in> set (value_counts (bin_edges xs step) xs). snd q \<le> n)
           \<and> (0 \<le> min_list xs \<longrightarrow> 1 \<le> n)"
proof -
  let ?es = "bin_edges xs step"
  let ?cs = "value_counts ?es xs"
  have so: "sorted_wrt (<) ?es" using assms(2) by (rule bin_edges_sorted)
  have len: "2 \<le> length ?es" using assms(2) by (rule bin_edges_length(1))
  have "length ?cs = length ?es - 1" by (rule value_counts_length)
  then have ne: "?cs \<noteq> []" using len by auto
  from desc_sort_nonempty [OF assms(3) ne]
  obtain p ps where p: "srt ?cs = p # ps" "p \<in> set ?cs" by blast
  obtain iv n where ivn: "p = (iv, n)" by (cases p)
  have res: "analyze_best_range srt xs step = Inr (Some iv, n)"
    using assms(1,2) p(1) ivn by (simp add: analyze_best_range_def)
  have mx: "\<forall>q \<in> set ?cs. snd q \<le> n"
    using desc_head_max [OF assms(3) p(1)] ivn by simp
  have one: "0 \<le> min_list xs \<longrightarrow> 1 \<le> n"
  proof
    assume nn: "0 \<le> min_list xs"
    have mem: "min_list xs \<in> set xs" using assms(1) by (simp add: min_list_Min)
    have "in_bin ?es 0 (min_list xs)" using assms(2,1) nn by (rule min_in_first_bin)
    then have "filter (in_bin ?es 0) xs \<noteq> []" using mem by (auto simp: filter_empty_conv)
    then have c: "1 \<le> length (filter (in_bin ?es 0) xs)" by (cases "filter (in_bin ?es 0) xs") auto
    have k: "0 + 1 < length ?es" using len by auto
    have "?cs ! 0 = ((?es ! 0, ?es ! (0 + 1)), length (filter (in_bin ?es 0) xs))"
      using value_counts_nth [OF so k] .
    moreover have "?cs ! 0 \<in> set ?cs" using ne by simp
    ultimately have "length (filter (in_bin ?es 0) xs) \<le> n" using mx by fastforce
    then show "1 \<le> n" using c by linarith
  qed
  show ?thesis using res p(2) ivn mx one by blast
qed

text \<open>The column \<open>1, 6, 11, 11.5\<close> with width 5 and the stable descending sort.\<close>

theorem analyze_best_range_spec_witness:
  "\<exists>iv n. analyze_best_range desc_sort example_column 5 = Inr (Some iv, n) \<and> 1 \<le> n"
proof -
  have h1: "example_column \<noteq> []" by (simp add: example_column_def)
  have h2: "(0 :: nat) < 5" by simp
  have h3: "0 \<le> min_list example_column" by (simp add: example_column_def)
  from analyze_best_range_spec [OF h1 h2 desc_sort_is_desc_sort] h3
  show ?thesis by blast
qed

end
